theory Spec2Isabelle
  imports Main
begin

section \<open>The decoded document\<close>

text \<open>
  \<^verbatim>\<open>src/App.jsx\<close> works on the tree that the XML parser returns: attributes carry the
  prefix \<^verbatim>\<open>_\<close>, child elements keep their tag, and the tags \<^verbatim>\<open>dmn:inputData\<close>,
  \<^verbatim>\<open>dmn:itemDefinition\<close> and \<^verbatim>\<open>dmn:itemComponent\<close> are always sequences. A property that may be
  missing (\<^verbatim>\<open>undefined\<close>) is an \<open>option\<close>. Names, type references and texts are strings (a
  text that the parser would turn into a number or an object is outside the model); a
  \<open>string\<close> holds the UTF-8 bytes of the text, so that a text is ASCII when no byte has its
  highest bit set.

  The sequence under \<^verbatim>\<open>dmn:itemComponent\<close> is a plain list: every use in the source
  (\<^verbatim>\<open>|| []\<close>, \<^verbatim>\<open>?.length\<close>) treats a missing sequence as the empty one.
\<close>

record itemComponent =
  ic_name :: "string option"           \<comment> \<open>\<^verbatim>\<open>comp._name\<close>\<close>
  ic_typeRef :: "string option"        \<comment> \<open>\<^verbatim>\<open>comp['dmn:typeRef']\<close>\<close>

text \<open>
  The tag \<^verbatim>\<open>dmn:allowedValues\<close> is not in the parser's \<^verbatim>\<open>isArray\<close> list. One such element in a
  type definition is decoded to a single node, two or more to the sequence of their
  nodes. A node is a string when the element has nothing but text (the empty string
  when it is empty), and otherwise an object, whose \<^verbatim>\<open>_text\<close> is the element's own text, if
  it has one.
\<close>

datatype allowedValue =
    TextNode string                    \<comment> \<open>an element with text only\<close>
  | ElementNode "string option"        \<comment> \<open>an object, with its \<^verbatim>\<open>_text\<close>\<close>

datatype allowedValues =
    One allowedValue
  | Many "allowedValue list"

record itemDefinition =
  id_name :: "string option"                      \<comment> \<open>\<^verbatim>\<open>d._name\<close>\<close>
  id_attr_typeRef :: "string option"              \<comment> \<open>\<^verbatim>\<open>def._typeRef\<close>\<close>
  id_typeRef :: "string option"                   \<comment> \<open>\<^verbatim>\<open>def['dmn:typeRef']\<close>\<close>
  id_itemComponent :: "itemComponent list"        \<comment> \<open>\<^verbatim>\<open>def['dmn:itemComponent']\<close>\<close>
  id_allowedValues :: "allowedValues option"      \<comment> \<open>\<^verbatim>\<open>def['dmn:allowedValues']\<close>\<close>

record variable =
  var_typeRef :: "string option"       \<comment> \<open>\<^verbatim>\<open>input['dmn:variable']._typeRef\<close>\<close>

record inputData =
  in_name :: "string option"           \<comment> \<open>\<^verbatim>\<open>input._name\<close>\<close>
  in_id :: "string option"             \<comment> \<open>\<^verbatim>\<open>input._id\<close>\<close>
  in_variable :: "variable option"     \<comment> \<open>\<^verbatim>\<open>input['dmn:variable']\<close>\<close>

record definitions =
  dmn_inputData :: "inputData list option"            \<comment> \<open>\<^verbatim>\<open>definitions['dmn:inputData']\<close>\<close>
  dmn_itemDefinition :: "itemDefinition list option"  \<comment> \<open>\<^verbatim>\<open>definitions['dmn:itemDefinition']\<close>\<close>

section \<open>Values built by the program\<close>

text \<open>The objects that \<^verbatim>\<open>findItemDefinition\<close> builds: \<^verbatim>\<open>{ name, typeRef, components }\<close>,
  where \<^verbatim>\<open>components\<close> is \<^verbatim>\<open>null\<close> or a sequence of such objects.\<close>

datatype component =
  Component (name: "string option") (typeRef: "string option") (components: "component list option")

text \<open>
  The example values. An object is the list of its own properties in the order in which
  \<^verbatim>\<open>Object.entries\<close>, the spread and \<^verbatim>\<open>JSON.stringify\<close> enumerate them: first the keys that are
  array indices, by ascending index, then the other keys in the order of their creation.
\<close>

datatype exampleValue =
    JNull
  | JNumber int
  | JBool bool
  | JString string
  | JObject "(string \<times> exampleValue) list"

text \<open>A key is an array index when it is the decimal numeral, without a leading zero, of a
  number below \<open>2\<^sup>3\<^sup>2 - 1\<close>.\<close>

definition digitValue :: "char \<Rightarrow> nat option" where
  "digitValue c = map_of (zip ''0123456789'' [0, 1, 2, 3, 4, 5, 6, 7, 8, 9]) c"

fun decimal :: "nat \<Rightarrow> string \<Rightarrow> nat option" where
  "decimal n [] = Some n"
| "decimal n (c # cs) =
     (case digitValue c of None \<Rightarrow> None | Some d \<Rightarrow> decimal (10 * n + d) cs)"

definition arrayIndex :: "string \<Rightarrow> nat option" where
  "arrayIndex key =
     (if key = [] \<or> (hd key = CHR ''0'' \<and> tl key \<noteq> []) then None
      else case decimal 0 key of
             None \<Rightarrow> None
           | Some n \<Rightarrow> if n < 4294967295 then Some n else None)"

text \<open>
  The definition of an own property: a computed key in an object literal after a spread
  (\<^verbatim>\<open>{ ...acc, [key]: value }\<close>), \<^verbatim>\<open>Object.fromEntries\<close>, and an assignment \<^verbatim>\<open>acc[key] = value\<close> that
  meets no setter. A key that is present keeps its place and takes the new value; a new
  array index goes to its place among the indices, any other new key to the end.
\<close>

fun insertIndex :: "nat \<Rightarrow> string \<times> 'v \<Rightarrow> (string \<times> 'v) list \<Rightarrow> (string \<times> 'v) list" where
  "insertIndex n e [] = [e]"
| "insertIndex n e (p # props) =
     (case arrayIndex (fst p) of
        Some m \<Rightarrow> if m < n then p # insertIndex n e props else e # p # props
      | None \<Rightarrow> e # p # props)"

definition setProperty :: "(string \<times> 'v) list \<Rightarrow> string \<times> 'v \<Rightarrow> (string \<times> 'v) list" where
  "setProperty props e =
     (if fst e \<in> fst ` set props
      then map (\<lambda>p. if fst p = fst e then e else p) props
      else case arrayIndex (fst e) of
             Some n \<Rightarrow> insertIndex n e props
           | None \<Rightarrow> props @ [e])"

definition fromEntries :: "(string \<times> 'v) list \<Rightarrow> (string \<times> 'v) list" where
  "fromEntries entries = foldl setProperty [] entries"

text \<open>
  The assignment \<^verbatim>\<open>acc[key] = value\<close> on an accumulator that began as \<^verbatim>\<open>{}\<close>. The key
  \<^verbatim>\<open>__proto__\<close> is special: as long as the object has no own property of that name and
  inherits the accessor of \<^verbatim>\<open>Object.prototype\<close>, the assignment calls its setter, which
  makes an object value the prototype, makes \<^verbatim>\<open>null\<close> the prototype, ignores any other
  value, and in no case creates a property. The flag beside the properties tells whether
  the object inherits the accessor: it does after \<^verbatim>\<open>{}\<close>; with a new prototype it does if
  the prototype does and has no own property \<^verbatim>\<open>__proto__\<close> in the way; with the
  prototype \<^verbatim>\<open>null\<close> it does not. The value comes with the flag of its own object (of no
  meaning for a value that is not an object).
\<close>

fun assignProperty ::
  "(string \<times> exampleValue) list \<times> bool \<Rightarrow> string \<times> exampleValue \<times> bool \<Rightarrow>
   (string \<times> exampleValue) list \<times> bool" where
  "assignProperty (props, inherits) (key, v, vInherits) =
     (if key = ''__proto__'' \<and> key \<notin> fst ` set props \<and> inherits
      then (case v of
              JObject vprops \<Rightarrow> (props, vInherits \<and> ''__proto__'' \<notin> fst ` set vprops)
            | JNull \<Rightarrow> (props, False)
            | _ \<Rightarrow> (props, inherits))
      else (setProperty props (key, v), inherits))"

text \<open>
  The same assignment where every value is a new object literal with fixed keys other
  than \<^verbatim>\<open>__proto__\<close> (the entries of \<^verbatim>\<open>inputDataMap\<close>): under the key \<^verbatim>\<open>__proto__\<close> the value
  becomes the prototype, the accumulator goes on inheriting the accessor, and no property
  is created.
\<close>

definition assignObject :: "(string \<times> 'v) list \<Rightarrow> string \<times> 'v \<Rightarrow> (string \<times> 'v) list" where
  "assignObject props e = (if fst e = ''__proto__'' then props else setProperty props e)"

text \<open>A property key that is \<^verbatim>\<open>undefined\<close> is converted to the string \<^verbatim>\<open>"undefined"\<close>.\<close>

definition propertyKey :: "string option \<Rightarrow> string" where
  "propertyKey k = (case k of None \<Rightarrow> ''undefined'' | Some s \<Rightarrow> s)"

text \<open>Truthiness of a string that may be missing: \<^verbatim>\<open>undefined\<close> and \<^verbatim>\<open>''\<close> are falsy.\<close>

definition truthy :: "string option \<Rightarrow> bool" where
  "truthy s = (case s of None \<Rightarrow> False | Some t \<Rightarrow> t \<noteq> [])"

text \<open>\<^verbatim>\<open>a ?? 'string'\<close>\<close>

definition orString :: "string option \<Rightarrow> string" where
  "orString a = (case a of None \<Rightarrow> ''string'' | Some s \<Rightarrow> s)"

text \<open>
  \<^verbatim>\<open>toLowerCase\<close> on ASCII text: the letters A to Z are mapped to a to z and every other
  character is kept. On a text with other characters \<^verbatim>\<open>String.prototype.toLowerCase\<close> also
  changes the cased letters among them, which this function does not: what is proved of
  the lower case of an arbitrary text carries the hypothesis \<open>ascii\<close>.
\<close>

definition ascii :: "string \<Rightarrow> bool" where
  "ascii s = (\<forall>c \<in> set s. \<not> digit7 c)"

definition lowerChar :: "char \<Rightarrow> char" where
  "lowerChar c =
     (case map_of (zip ''ABCDEFGHIJKLMNOPQRSTUVWXYZ'' ''abcdefghijklmnopqrstuvwxyz'') c of
        None \<Rightarrow> c
      | Some l \<Rightarrow> l)"

definition toLowerCase :: "string \<Rightarrow> string" where
  "toLowerCase s = map lowerChar s"

section \<open>Errors and non-termination\<close>

text \<open>
  A call either throws, or returns a value, or does not return. The functions below take
  a bound on the depth of the calls: \<open>None\<close> says that the bound was reached, \<open>Some (Inl e)\<close>
  that \<open>e\<close> was thrown, \<open>Some (Inr v)\<close> that \<open>v\<close> was returned. A JavaScript engine has such a
  bound, the size of its call stack, and raises a RangeError where it is reached.
\<close>

datatype error =
    TypeError            \<comment> \<open>a property of \<^verbatim>\<open>undefined\<close> was read\<close>
  | InvalidStructure     \<comment> \<open>\<^verbatim>\<open>new Error('Invalid DMN file structure')\<close>\<close>
  | RangeError           \<comment> \<open>the engine's call stack was exhausted\<close>

type_synonym 'a result = "(error + 'a) option"

definition returns :: "'a \<Rightarrow> 'a result" where
  "returns v = Some (Inr v)"

definition throws :: "error \<Rightarrow> 'a result" where
  "throws e = Some (Inl e)"

definition andThen :: "'a result \<Rightarrow> ('a \<Rightarrow> 'b result) \<Rightarrow> 'b result" where
  "andThen m f = (case m of None \<Rightarrow> None | Some (Inl e) \<Rightarrow> Some (Inl e) | Some (Inr v) \<Rightarrow> f v)"

text \<open>\<^verbatim>\<open>xs.map(f)\<close> and the calls of a \<^verbatim>\<open>reduce\<close>, from left to right.\<close>

fun mapResult :: "('a \<Rightarrow> 'b result) \<Rightarrow> 'a list \<Rightarrow> 'b list result" where
  "mapResult f [] = returns []"
| "mapResult f (x # xs) = andThen (f x) (\<lambda>y. andThen (mapResult f xs) (\<lambda>ys. returns (y # ys)))"

section \<open>Quoted literals\<close>

text \<open>
  \<^verbatim>\<open>text.match(/"([^"]+)"/g)\<close>: all matches of a quote, one or more characters other than a
  quote, and a quote, found from left to right, each search starting after the previous
  match. \<open>scanQuoted\<close> reads the text once: its state is \<open>None\<close> outside a candidate and
  \<open>Some run\<close> after an opening quote followed by \<open>run\<close>. A quote that follows an opening quote
  at once cannot close a match (the run would be empty) and is the next candidate for an
  opening quote. The result \<open>None\<close> is \<^verbatim>\<open>null\<close>, which \<^verbatim>\<open>match\<close> returns when nothing matches.
\<close>

definition quote :: char where
  "quote = CHR 0x22"

fun scanQuoted :: "string option \<Rightarrow> string \<Rightarrow> string list" where
  "scanQuoted st [] = []"
| "scanQuoted None (c # cs) =
     (if c = quote then scanQuoted (Some []) cs else scanQuoted None cs)"
| "scanQuoted (Some run) (c # cs) =
     (if c = quote
      then (if run = [] then scanQuoted (Some []) cs
            else (quote # run @ [quote]) # scanQuoted None cs)
      else scanQuoted (Some (run @ [c])) cs)"

definition matchQuoted :: "string \<Rightarrow> string list option" where
  "matchQuoted t = (case scanQuoted None t of [] \<Rightarrow> None | m # ms \<Rightarrow> Some (m # ms))"

text \<open>\<^verbatim>\<open>v.replace(/^"/, '').replace(/"$/, '')\<close>\<close>

definition stripQuotes :: "string \<Rightarrow> string" where
  "stripQuotes v =
     (let a = (case v of [] \<Rightarrow> [] | c # cs \<Rightarrow> if c = quote then cs else v)
      in if a \<noteq> [] \<and> last a = quote then butlast a else a)"

section \<open>findItemDefinition\<close>

text \<open>
  \<^verbatim>\<open>itemDefinitions.find\<close> on \<^verbatim>\<open>undefined\<close> throws a TypeError. The lookup compares the name
  with \<^verbatim>\<open>===\<close>, so a missing name equals a missing type reference. There is no record of
  the names on the path: a component is resolved by a new call whenever its type
  reference is truthy.
\<close>

fun findItemDefinition ::
  "nat \<Rightarrow> itemDefinition list option \<Rightarrow> string option \<Rightarrow> component list option result" where
  "findItemDefinition 0 itemDefinitions tr = None"
| "findItemDefinition (Suc fuel) None tr = throws TypeError"
| "findItemDefinition (Suc fuel) (Some ds) tr =
     (case find (\<lambda>d. id_name d = tr) ds of
        None \<Rightarrow> returns None
      | Some d \<Rightarrow>
          andThen
            (mapResult
               (\<lambda>c. andThen
                       (if truthy (ic_typeRef c)
                        then findItemDefinition fuel (Some ds) (ic_typeRef c)
                        else returns None)
                       (\<lambda>cs. returns (Component (ic_name c) (ic_typeRef c) cs)))
               (id_itemComponent d))
            (\<lambda>comps. returns (Some comps)))"

section \<open>generateExampleValue\<close>

text \<open>The value chosen for a type name: \<^verbatim>\<open>t === 'number' ? 0 : t === 'boolean' ? true :
  'example_' + t.toLowerCase()\<close>, which the source writes out at both places where it is used.\<close>

definition exampleFor :: "string \<Rightarrow> exampleValue" where
  "exampleFor t =
     (if t = ''number'' then JNumber 0
      else if t = ''boolean'' then JBool True
      else JString (''example_'' @ toLowerCase t))"

text \<open>The test \<^verbatim>\<open>def['dmn:allowedValues']\<close> of line 110: a missing value and the empty string
  are falsy, every other string, every object and every sequence is truthy.\<close>

definition hasAllowedValues :: "itemDefinition \<Rightarrow> bool" where
  "hasAllowedValues d =
     (case id_allowedValues d of
        None \<Rightarrow> False
      | Some (One (TextNode s)) \<Rightarrow> s \<noteq> []
      | Some _ \<Rightarrow> True)"

text \<open>
  \<^verbatim>\<open>def['dmn:allowedValues']?.[0]?._text\<close>: the text of the first node of a sequence. A
  single node has no text to give here: element \<^verbatim>\<open>0\<close> of an object is \<^verbatim>\<open>undefined\<close>, and
  element \<^verbatim>\<open>0\<close> of a string is its first character, a string, which has no \<^verbatim>\<open>_text\<close>.
\<close>

definition firstText :: "itemDefinition \<Rightarrow> string option" where
  "firstText d =
     (case id_allowedValues d of
        Some (Many (ElementNode t # _)) \<Rightarrow> t
      | _ \<Rightarrow> None)"

text \<open>\<^verbatim>\<open>def['dmn:allowedValues']?.[0]?._text?.match(/"([^"]+)"/g)?.map(v => ...)\<close>\<close>

definition allowedValuesOf :: "itemDefinition \<Rightarrow> string list option" where
  "allowedValuesOf d =
     (case firstText d of
        None \<Rightarrow> None
      | Some t \<Rightarrow> map_option (map stripQuotes) (matchQuoted t))"

text \<open>\<^verbatim>\<open>allowedValues?.[0] || (def._typeRef ?? 'string').toLowerCase()\<close>\<close>

definition allowedExample :: "itemDefinition \<Rightarrow> exampleValue" where
  "allowedExample d =
     (case allowedValuesOf d of
        Some (v # _) \<Rightarrow> if v \<noteq> [] then JString v else JString (toLowerCase (orString (id_attr_typeRef d)))
      | _ \<Rightarrow> JString (toLowerCase (orString (id_attr_typeRef d))))"

text \<open>\<^verbatim>\<open>(def['dmn:typeRef'] || def?._typeRef) ?? 'string'\<close>\<close>

definition declaredType :: "itemDefinition \<Rightarrow> string" where
  "declaredType d = orString (if truthy (id_typeRef d) then id_typeRef d else id_attr_typeRef d)"

text \<open>
  The function returns \<^verbatim>\<open>null\<close> or the accumulator of its \<^verbatim>\<open>reduce\<close>. The result is the value
  together with the flag of the accumulator (see \<open>assignProperty\<close>; \<open>False\<close> beside \<^verbatim>\<open>null\<close>),
  which is read only where the result is assigned under the key \<^verbatim>\<open>__proto__\<close>. The object
  of the composite branch is a literal, which inherits the accessor; the values of the
  other branches are strings, numbers and booleans.
\<close>

fun generateExampleValue ::
  "nat \<Rightarrow> component list option \<Rightarrow> itemDefinition list option \<Rightarrow>
   (exampleValue \<times> bool) result" where
  "generateExampleValue 0 comps itemDefinitions = None"
| "generateExampleValue (Suc fuel) None itemDefinitions = returns (JNull, False)"
| "generateExampleValue (Suc fuel) (Some cs) itemDefinitions =
     (let ds = (case itemDefinitions of None \<Rightarrow> [] | Some l \<Rightarrow> l) in
      andThen
        (mapResult
           (\<lambda>c. andThen
                   (case (if truthy (typeRef c) then find (\<lambda>d. id_name d = typeRef c) ds else None) of
                      Some d \<Rightarrow>
                        if id_itemComponent d = [] \<and> hasAllowedValues d
                        then returns (allowedExample d, False)
                        else if id_itemComponent d \<noteq> []
                        then andThen
                               (mapResult
                                  (\<lambda>comp. andThen
                                     (if truthy (ic_typeRef comp)
                                      then findItemDefinition fuel (Some ds) (ic_typeRef comp)
                                      else returns None)
                                     (\<lambda>sub. andThen
                                        (generateExampleValue fuel
                                           (Some [Component (ic_name comp) (ic_typeRef comp) sub])
                                           (Some ds))
                                        (\<lambda>r. returns (propertyKey (ic_name comp), fst r))))
                                  (id_itemComponent d))
                               (\<lambda>nested. returns (JObject (fromEntries nested), True))
                        else returns (exampleFor (declaredType d), False)
                    | None \<Rightarrow>
                        if truthy (typeRef c)
                        then generateExampleValue fuel (components c) (Some ds)
                        else returns (exampleFor (orString (typeRef c)), False))
                   (\<lambda>r. returns (propertyKey (name c), r)))
           cs)
        (\<lambda>assignments.
           returns (case foldl assignProperty ([], True) assignments of
                      (props, inherits) \<Rightarrow> (JObject props, inherits))))"

section \<open>handleFileUpload\<close>

text \<open>The entries of \<^verbatim>\<open>inputDataMap\<close>: \<^verbatim>\<open>{ typeRef, components, namespace }\<close>.\<close>

record inputDef =
  def_typeRef :: "string option"
  def_components :: "component list option"
  def_namespace :: "string option"

text \<open>\<^verbatim>\<open>const inputDataMap = (definitions['dmn:inputData'] || []).reduce(...)\<close>. Reading
  \<^verbatim>\<open>_typeRef\<close> of a missing \<^verbatim>\<open>dmn:variable\<close> throws a TypeError.\<close>

definition inputDataMap :: "nat \<Rightarrow> definitions \<Rightarrow> (string \<times> inputDef) list result" where
  "inputDataMap fuel defs =
     andThen
       (mapResult
          (\<lambda>input.
             case in_variable input of
               None \<Rightarrow> throws TypeError
             | Some var \<Rightarrow>
                 andThen (findItemDefinition fuel (dmn_itemDefinition defs) (var_typeRef var))
                   (\<lambda>comps. returns
                      (propertyKey (in_name input),
                       \<lparr>def_typeRef = var_typeRef var, def_components = comps,
                        def_namespace = in_id input\<rparr>)))
          (case dmn_inputData defs of None \<Rightarrow> [] | Some l \<Rightarrow> l))
       (\<lambda>assignments. returns (foldl assignObject [] assignments))"

text \<open>\<^verbatim>\<open>const schema = Object.fromEntries(Object.entries(inputDataMap).map(...))\<close>\<close>

definition schema :: "nat \<Rightarrow> definitions \<Rightarrow> exampleValue result" where
  "schema fuel defs =
     andThen (inputDataMap fuel defs)
       (\<lambda>m. andThen
          (mapResult
             (\<lambda>(key, def). andThen
                (generateExampleValue fuel (def_components def) (dmn_itemDefinition defs))
                (\<lambda>r. returns (key, fst r)))
             m)
          (\<lambda>entries. returns (JObject (fromEntries entries))))"

text \<open>
  The state of the component and the body of \<^verbatim>\<open>reader.onload\<close>, from the parsed document on
  (reading the file and decoding the XML come before). \<open>parsed\<close> is
  \<^verbatim>\<open>parsed['dmn:definitions']\<close>, \<open>None\<close> when it is falsy. An error thrown in the \<^verbatim>\<open>try\<close> block
  replaces the validation errors and leaves the schema and the modal as they were; \<open>details\<close>
  is the error whose message the source stores. The \<^verbatim>\<open>catch\<close> also takes the RangeError
  that the engine raises where the bound on the depth of the calls is reached.
\<close>

record validationError =
  message :: string
  details :: error

record appState =
  jsonSchema :: "exampleValue option"
  modalOpen :: bool
  validationErrors :: "validationError list"

definition processDocument :: "nat \<Rightarrow> definitions option \<Rightarrow> exampleValue result" where
  "processDocument fuel parsed =
     (case parsed of None \<Rightarrow> throws InvalidStructure | Some defs \<Rightarrow> schema fuel defs)"

definition handleFileUpload :: "nat \<Rightarrow> appState \<Rightarrow> definitions option \<Rightarrow> appState option" where
  "handleFileUpload fuel s parsed =
     (case processDocument fuel parsed of
        None \<Rightarrow>
          Some (s\<lparr>validationErrors := [\<lparr>message = ''Processing error'', details = RangeError\<rparr>]\<rparr>)
      | Some (Inl e) \<Rightarrow>
          Some (s\<lparr>validationErrors := [\<lparr>message = ''Processing error'', details = e\<rparr>]\<rparr>)
      | Some (Inr sch) \<Rightarrow>
          Some \<lparr>jsonSchema = Some sch, modalOpen = True, validationErrors = []\<rparr>)"

section \<open>Notions used to state the properties\<close>

text \<open>
  \<open>quotedAt t i lit\<close>: at position \<open>i\<close> of \<open>t\<close> stands a quote, then the non-empty text \<open>lit\<close>
  without a quote, then a quote. This is what the pattern \<^verbatim>\<open>"([^"]+)"\<close> matches at \<open>i\<close>.
\<close>

fun quotedAt :: "string \<Rightarrow> nat \<Rightarrow> string \<Rightarrow> bool" where
  "quotedAt t 0 lit =
     (lit \<noteq> [] \<and> quote \<notin> set lit \<and> take (length lit + 2) t = quote # lit @ [quote])"
| "quotedAt [] (Suc i) lit = False"
| "quotedAt (c # cs) (Suc i) lit = quotedAt cs i lit"


text \<open>
  The type definitions are acyclic when a rank decreases along every reference that the
  lookup resolves: from a definition to the definition that the type reference of one of
  its components finds.
\<close>

definition ranked :: "(itemDefinition \<Rightarrow> nat) \<Rightarrow> itemDefinition list \<Rightarrow> bool" where
  "ranked rank ds =
     (\<forall>d \<in> set ds. \<forall>c \<in> set (id_itemComponent d).
        truthy (ic_typeRef c) \<longrightarrow>
        (case find (\<lambda>x. id_name x = ic_typeRef c) ds of
           None \<Rightarrow> True
         | Some d' \<Rightarrow> rank d' < rank d))"

text \<open>
  The names lie on cycles when each of them finds a definition that has a component
  whose type reference is again one of the names: a definition that refers to itself,
  or a longer loop.
\<close>

definition cyclic :: "itemDefinition list \<Rightarrow> string option list \<Rightarrow> bool" where
  "cyclic ds names =
     (\<forall>t \<in> set names.
        case find (\<lambda>d. id_name d = t) ds of
          None \<Rightarrow> False
        | Some d \<Rightarrow>
            (\<exists>c \<in> set (id_itemComponent d). truthy (ic_typeRef c) \<and> ic_typeRef c \<in> set names))"

section \<open>Example documents\<close>

text \<open>A type with the given name, components, base type (\<^verbatim>\<open>dmn:typeRef\<close>) and no attribute
  \<^verbatim>\<open>_typeRef\<close> or allowed values.\<close>

definition typeDef :: "string \<Rightarrow> itemComponent list \<Rightarrow> string option \<Rightarrow> itemDefinition" where
  "typeDef n comps base =
     \<lparr>id_name = Some n, id_attr_typeRef = None, id_typeRef = base,
      id_itemComponent = comps, id_allowedValues = None\<rparr>"

definition field :: "string \<Rightarrow> string option \<Rightarrow> itemComponent" where
  "field n t = \<lparr>ic_name = Some n, ic_typeRef = t\<rparr>"

definition inputOf :: "string \<Rightarrow> string \<Rightarrow> inputData" where
  "inputOf n t =
     \<lparr>in_name = Some n, in_id = Some (''_'' @ n), in_variable = Some \<lparr>var_typeRef = Some t\<rparr>\<rparr>"

text \<open>An input \<open>Applicant\<close> of type \<open>Person\<close>; \<open>Person\<close> has the fields \<open>name\<close> (no type reference)
  and \<open>age\<close> (of type \<open>Number\<close>, whose base type is \<open>number\<close>).\<close>

definition personCatalog :: "itemDefinition list" where
  "personCatalog =
     [typeDef ''Person'' [field ''name'' None, field ''age'' (Some ''Number'')] None,
      typeDef ''Number'' [] (Some ''number'')]"

definition applicantDocument :: definitions where
  "applicantDocument =
     \<lparr>dmn_inputData = Some [inputOf ''Applicant'' ''Person''],
      dmn_itemDefinition = Some personCatalog\<rparr>"

text \<open>An input \<open>Customer\<close> of type \<open>Customer\<close>, which has a field \<open>address\<close> of the composite type
  \<open>Address\<close> with the fields \<open>street\<close> and \<open>city\<close>.\<close>

definition customerDocument :: definitions where
  "customerDocument =
     \<lparr>dmn_inputData = Some [inputOf ''Customer'' ''Customer''],
      dmn_itemDefinition =
        Some [typeDef ''Customer'' [field ''address'' (Some ''Address'')] None,
              typeDef ''Address'' [field ''street'' None, field ''city'' None] None]\<rparr>"

text \<open>The type \<open>Currency\<close> is not defined: it is the type of the field \<open>amount\<close> of \<open>Order\<close> and
  of the input \<open>Fee\<close>.\<close>

definition orderDocument :: definitions where
  "orderDocument =
     \<lparr>dmn_inputData = Some [inputOf ''Order'' ''Order'', inputOf ''Fee'' ''Currency''],
      dmn_itemDefinition = Some [typeDef ''Order'' [field ''amount'' (Some ''Currency'')] None]\<rparr>"

text \<open>A type that refers to itself, and two types that refer to each other.\<close>

definition nodeCatalog :: "itemDefinition list" where
  "nodeCatalog = [typeDef ''Node'' [field ''label'' None, field ''next'' (Some ''Node'')] None]"

definition loopCatalog :: "itemDefinition list" where
  "loopCatalog =
     [typeDef ''Employee'' [field ''unit'' (Some ''Unit'')] None,
      typeDef ''Unit'' [field ''head'' (Some ''Employee'')] None]"

definition personRank :: "itemDefinition \<Rightarrow> nat" where
  "personRank d = (if id_name d = Some ''Person'' then 1 else 0)"

text \<open>Primitive types without allowed values: a base type written with a capital, and a
  boolean.\<close>

definition ageCatalog :: "itemDefinition list" where
  "ageCatalog = [typeDef ''Age'' [] (Some ''Number''), typeDef ''Flag'' [] (Some ''boolean'')]"





text \<open>A document that declares an input and no type definition at all.\<close>

definition bareDocument :: definitions where
  "bareDocument =
     \<lparr>dmn_inputData = Some [inputOf ''Score'' ''number''], dmn_itemDefinition = None\<rparr>"

text \<open>An input \<open>Limit\<close> whose type \<open>Amount\<close> is defined without components.\<close>

definition limitDocument :: definitions where
  "limitDocument =
     \<lparr>dmn_inputData = Some [inputOf ''Limit'' ''Amount''],
      dmn_itemDefinition = Some [typeDef ''Amount'' [] (Some ''number'')]\<rparr>"

section \<open>Results of calls\<close>

lemma andThen_returns [simp]: "andThen (returns v) f = f v"
  by (simp add: andThen_def returns_def)

lemma andThen_throws [simp]: "andThen (throws e) f = throws e"
  by (simp add: andThen_def throws_def)

lemma andThen_None [simp]: "andThen None f = None"
  by (simp add: andThen_def)

lemma returns_neq [simp]: "returns v \<noteq> None" "returns v \<noteq> throws e" "throws e \<noteq> None" "throws e \<noteq> returns v"
   "None \<noteq> returns v" "None \<noteq> throws e"
  by (simp_all add: returns_def throws_def)

lemma returns_inj [simp]: "returns v = returns w \<longleftrightarrow> v = w" "throws e = throws e' \<longleftrightarrow> e = e'"
  by (auto simp add: returns_def throws_def)

lemma result_cases: obtains "m = None" | e where "m = throws e" | v where "m = returns v"
  by (cases m) (auto simp: returns_def throws_def elim: sumE)

lemma andThen_eq_Some:
  "andThen m f = Some r \<longleftrightarrow> (\<exists>e. m = throws e \<and> r = Inl e) \<or> (\<exists>v. m = returns v \<and> f v = Some r)"
  by (auto simp: andThen_def returns_def throws_def split: option.splits sum.splits)

lemma andThen_eq_returns:
  "andThen m f = returns r \<longleftrightarrow> (\<exists>v. m = returns v \<and> f v = returns r)"
  by (cases m rule: result_cases) auto

lemma andThen_mono:
  assumes "andThen m f = Some r"
    and "\<And>q. m = Some q \<Longrightarrow> m' = Some q"
    and "\<And>v q. m = returns v \<Longrightarrow> f v = Some q \<Longrightarrow> f' v = Some q"
  shows "andThen m' f' = Some r"
  using assms by (cases m rule: result_cases) (auto simp: throws_def returns_def andThen_def)

lemma mapResult_mono:
  assumes "\<And>x q. x \<in> set xs \<Longrightarrow> f x = Some q \<Longrightarrow> g x = Some q"
  shows "mapResult f xs = Some r \<Longrightarrow> mapResult g xs = Some r"
  using assms
proof (induction xs arbitrary: r)
  case Nil
  then show ?case by simp
next
  case (Cons x xs)
  show ?case
    unfolding mapResult.simps
  proof (rule andThen_mono[OF Cons.prems(1)[unfolded mapResult.simps]])
    fix q assume "f x = Some q" then show "g x = Some q" using Cons.prems(2) by simp
  next
    fix v q assume "andThen (mapResult f xs) (\<lambda>ys. returns (v # ys)) = Some q"
    then show "andThen (mapResult g xs) (\<lambda>ys. returns (v # ys)) = Some q"
      by (rule andThen_mono) (use Cons in auto)
  qed
qed

section \<open>A deeper bound keeps every result\<close>

lemma findItemDefinition_Suc:
  "findItemDefinition n ids tr = Some r \<Longrightarrow> findItemDefinition (Suc n) ids tr = Some r"
proof (induction n arbitrary: tr r)
  case 0
  then show ?case by simp
next
  case (Suc n)
  show ?case
  proof (cases ids)
    case None
    with Suc.prems show ?thesis by simp
  next
    case (Some ds)
    show ?thesis
    proof (cases "find (\<lambda>d. id_name d = tr) ds")
      case None
      with Suc.prems Some show ?thesis by simp
    next
      case (Some d)
      from Suc.prems show ?thesis
        unfolding \<open>ids = Some ds\<close> findItemDefinition.simps(3)[of "Suc n"] findItemDefinition.simps(3)[of n] Some option.case
        apply (rule andThen_mono)
         apply (erule mapResult_mono[rotated])
         apply (erule andThen_mono)
        using Suc.IH[folded \<open>ids = Some ds\<close>] 
          apply (auto simp: \<open>ids = Some ds\<close>)
        done
    qed
  qed
qed

section \<open>The first quoted literal\<close>

lemma take_eq_iff: "take (length lit + 2) t = quote # lit @ [quote] \<longleftrightarrow> (\<exists>rest. t = quote # lit @ quote # rest)"
proof
  assume a: "take (length lit + 2) t = quote # lit @ [quote]"
  have "t = take (length lit + 2) t @ drop (length lit + 2) t" by simp
  then have "t = quote # lit @ quote # drop (length lit + 2) t"
    unfolding a by simp
  then show "\<exists>rest. t = quote # lit @ quote # rest" ..
next
  assume "\<exists>rest. t = quote # lit @ quote # rest"
  then show "take (length lit + 2) t = quote # lit @ [quote]" by auto
qed

lemma quotedAt_0_iff:
  "quotedAt t 0 lit \<longleftrightarrow> lit \<noteq> [] \<and> quote \<notin> set lit \<and> (\<exists>rest. t = quote # lit @ quote # rest)"
  unfolding quotedAt.simps(1) take_eq_iff ..

declare quotedAt.simps(1) [simp del]

lemma quotedAt_Nil [simp]: "\<not> quotedAt [] i lit"
  by (cases i) (simp_all add: quotedAt_0_iff)







section \<open>Termination of the lookup\<close>

lemma mapResult_throwsD: "mapResult f xs = throws e \<Longrightarrow> \<exists>x \<in> set xs. f x = throws e"
proof (induction xs)
  case Nil
  then show ?case by simp
next
  case (Cons x xs)
  show ?case
  proof (cases "f x" rule: result_cases)
    case 1
    with Cons.prems show ?thesis by simp
  next
    case (2 e')
    with Cons.prems show ?thesis by simp
  next
    case (3 v)
    with Cons.prems have "mapResult f xs = throws e"
      by (cases "mapResult f xs" rule: result_cases) auto
    with Cons.IH show ?thesis by auto
  qed
qed

lemma mapResult_NoneI:
  assumes "x \<in> set xs" "f x = None" "\<forall>y \<in> set xs. \<forall>e. f y \<noteq> throws e"
  shows "mapResult f xs = None"
  using assms
proof (induction xs)
  case Nil
  then show ?case by simp
next
  case (Cons a xs)
  show ?case
  proof (cases "f a" rule: result_cases)
    case 1
    then show ?thesis by simp
  next
    case (2 e)
    with Cons.prems show ?thesis by simp
  next
    case (3 v)
    with Cons.prems have "x \<in> set xs" by auto
    with Cons have "mapResult f xs = None" by simp
    with 3 show ?thesis by simp
  qed
qed

lemma mapResult_returnsI:
  assumes "\<forall>x \<in> set xs. \<exists>y. f x = returns y"
  shows "\<exists>ys. mapResult f xs = returns ys"
  using assms
proof (induction xs)
  case Nil
  then show ?case by simp
next
  case (Cons a xs)
  then obtain y ys where "f a = returns y" "mapResult f xs = returns ys" by auto
  then show ?case by simp
qed

lemma findItemDefinition_no_throw: "findItemDefinition fuel (Some ds) tr \<noteq> throws e"
proof (induction fuel arbitrary: tr)
  case 0
  show ?case by simp
next
  case (Suc n)
  show ?case
  proof (cases "find (\<lambda>d. id_name d = tr) ds")
    case None
    then show ?thesis by simp
  next
    case (Some d)
    show ?thesis
    proof
      assume "findItemDefinition (Suc n) (Some ds) tr = throws e"
      then have "mapResult
               (\<lambda>c. andThen
                       (if truthy (ic_typeRef c)
                        then findItemDefinition n (Some ds) (ic_typeRef c)
                        else returns None)
                       (\<lambda>cs. returns (Component (ic_name c) (ic_typeRef c) cs)))
               (id_itemComponent d) = throws e" (is "mapResult ?F _ = _")
        using Some by (cases "mapResult ?F (id_itemComponent d)" rule: result_cases) auto
      then obtain c where "?F c = throws e" by (blast dest: mapResult_throwsD)
      then have "findItemDefinition n (Some ds) (ic_typeRef c) = throws e"
        by (cases "findItemDefinition n (Some ds) (ic_typeRef c)" rule: result_cases) (auto split: if_splits)
      with Suc.IH show False by simp
    qed
  qed
qed

lemma cyclic_diverges:
  assumes "cyclic ds names"
  shows "tr \<in> set names \<Longrightarrow> findItemDefinition fuel (Some ds) tr = None"
proof (induction fuel arbitrary: tr)
  case 0
  show ?case by simp
next
  case (Suc n)
  from assms Suc.prems obtain d c where d: "find (\<lambda>d. id_name d = tr) ds = Some d"
    and c: "c \<in> set (id_itemComponent d)" "truthy (ic_typeRef c)" "ic_typeRef c \<in> set names"
    unfolding cyclic_def by (fastforce split: option.splits)
  let ?F = "\<lambda>c. andThen
                       (if truthy (ic_typeRef c)
                        then findItemDefinition n (Some ds) (ic_typeRef c)
                        else returns None)
                       (\<lambda>cs. returns (Component (ic_name c) (ic_typeRef c) cs))"
  have "?F c = None" using c Suc.IH by simp
  moreover have "\<forall>y \<in> set (id_itemComponent d). \<forall>e. ?F y \<noteq> throws e"
  proof (intro ballI allI notI)
    fix y e assume "?F y = throws e"
    then have "findItemDefinition n (Some ds) (ic_typeRef y) = throws e"
      by (cases "findItemDefinition n (Some ds) (ic_typeRef y)" rule: result_cases) (auto split: if_splits)
    then show False using findItemDefinition_no_throw by blast
  qed
  ultimately have "mapResult ?F (id_itemComponent d) = None"
    using c(1) by (rule mapResult_NoneI[rotated])
  then show ?case using d by simp
qed

lemma findItemDefinition_le:
  "findItemDefinition n ids tr = Some r \<Longrightarrow> n \<le> m \<Longrightarrow> findItemDefinition m ids tr = Some r"
  by (induction m) (auto simp: le_Suc_eq simp del: findItemDefinition.simps intro: findItemDefinition_Suc)

lemma ranked_returns:
  assumes "ranked rank ds"
  shows "find (\<lambda>d. id_name d = tr) ds = Some d \<Longrightarrow> rank d + 2 \<le> fuel \<Longrightarrow>
         \<exists>cs. findItemDefinition fuel (Some ds) tr = returns (Some cs)"
proof (induction fuel arbitrary: tr d)
  case 0
  then show ?case by simp
next
  case (Suc n)
  let ?F = "\<lambda>c. andThen
                       (if truthy (ic_typeRef c)
                        then findItemDefinition n (Some ds) (ic_typeRef c)
                        else returns None)
                       (\<lambda>cs. returns (Component (ic_name c) (ic_typeRef c) cs))"
  from Suc.prems(1) have dmem: "d \<in> set ds" by (auto simp: find_Some_iff)
  from Suc.prems(2) obtain n' where n: "n = Suc n'" by (cases n) auto
  have "\<forall>c \<in> set (id_itemComponent d). \<exists>y. ?F c = returns y"
  proof
    fix c assume c: "c \<in> set (id_itemComponent d)"
    show "\<exists>y. ?F c = returns y"
    proof (cases "truthy (ic_typeRef c)")
      case False
      then show ?thesis by simp
    next
      case True
      show ?thesis
      proof (cases "find (\<lambda>x. id_name x = ic_typeRef c) ds")
        case None
        then show ?thesis using True n by simp
      next
        case (Some d')
        with assms dmem c True have "rank d' < rank d" unfolding ranked_def by fastforce
        with Suc.prems(2) have "rank d' + 2 \<le> n" by simp
        from Suc.IH[OF Some this] show ?thesis using True by auto
      qed
    qed
  qed
  from mapResult_returnsI[OF this] obtain ys
    where "mapResult ?F (id_itemComponent d) = returns ys" ..
  then show ?case using Suc.prems(1) by simp
qed

section \<open>Quoted literals found by the pattern\<close>





section \<open>Results of a sequence of calls\<close>

lemma mapResult_returnsD:
  "mapResult f xs = returns ys \<Longrightarrow> list_all2 (\<lambda>x y. f x = returns y) xs ys"
proof (induction xs arbitrary: ys)
  case Nil
  then show ?case by simp
next
  case (Cons x xs)
  from Cons.prems obtain y where y: "f x = returns y"
    by (cases "f x" rule: result_cases) auto
  with Cons.prems obtain zs where zs: "mapResult f xs = returns zs"
    by (cases "mapResult f xs" rule: result_cases) auto
  with y Cons.prems have "ys = y # zs" by simp
  with y zs Cons.IH show ?case by simp
qed

lemma list_all2_set1: "list_all2 P xs ys \<Longrightarrow> x \<in> set xs \<Longrightarrow> \<exists>y \<in> set ys. P x y"
  by (induction rule: list_all2_induct) auto

lemma list_all2_set2: "list_all2 P xs ys \<Longrightarrow> y \<in> set ys \<Longrightarrow> \<exists>x \<in> set xs. P x y"
  by (induction rule: list_all2_induct) auto

lemma list_all2_map_fst:
  "list_all2 (\<lambda>x y. fst y = fst x) xs ys \<Longrightarrow> map fst ys = map fst xs"
  by (induction rule: list_all2_induct) auto

section \<open>Property lists\<close>

lemma insertIndex_keys: "fst ` set (insertIndex n e ps) = insert (fst e) (fst ` set ps)"
  by (induction ps) (auto split: option.splits)

lemma setProperty_keys: "fst ` set (setProperty ps e) = insert (fst e) (fst ` set ps)"
  by (auto simp: setProperty_def insertIndex_keys split: option.splits if_splits)

lemma map_of_replace:
  "map_of (map (\<lambda>p. if fst p = k then (k, v) else p) ps) =
     (if k \<in> fst ` set ps then (map_of ps)(k \<mapsto> v) else map_of ps)"
  by (induction ps) (auto simp: fun_eq_iff)

lemma map_of_insertIndex:
  "k \<notin> fst ` set ps \<Longrightarrow> map_of (insertIndex n (k, v) ps) = (map_of ps)(k \<mapsto> v)"
  by (induction ps) (auto simp: fun_eq_iff split: option.splits)

lemma map_of_snoc:
  assumes "k \<notin> fst ` set ps"
  shows "map_of (ps @ [(k, v)]) = (map_of ps)(k \<mapsto> v)"
proof (rule ext)
  fix x
  from assms have "map_of ps k = None" by (simp add: map_of_eq_None_iff)
  then show "map_of (ps @ [(k, v)]) x = ((map_of ps)(k \<mapsto> v)) x"
    by (auto simp: map_add_def split: option.splits)
qed

lemma map_of_setProperty: "map_of (setProperty ps (k, v)) = (map_of ps)(k \<mapsto> v)"
proof (cases "k \<in> fst ` set ps")
  case True
  then show ?thesis by (simp add: setProperty_def map_of_replace)
next
  case False
  show ?thesis
  proof (cases "arrayIndex k")
    case None
    with False have "setProperty ps (k, v) = ps @ [(k, v)]" by (simp add: setProperty_def)
    then show ?thesis using map_of_snoc[OF False, of v] by simp
  next
    case (Some n)
    with False have "setProperty ps (k, v) = insertIndex n (k, v) ps" by (simp add: setProperty_def)
    then show ?thesis using map_of_insertIndex[OF False, of n v] by simp
  qed
qed

lemma distinct_insertIndex:
  "distinct (map fst ps) \<Longrightarrow> fst e \<notin> fst ` set ps \<Longrightarrow> distinct (map fst (insertIndex n e ps))"
  by (induction ps) (auto simp: insertIndex_keys split: option.splits)

lemma replace_keys: "map (fst \<circ> (\<lambda>p. if fst p = fst e then e else p)) ps = map fst ps"
  by (induction ps) auto

lemma distinct_setProperty:
  "distinct (map fst ps) \<Longrightarrow> distinct (map fst (setProperty ps e))"
  by (auto simp: setProperty_def distinct_insertIndex replace_keys split: option.splits)

lemma setProperty_Nil [simp]: "setProperty [] e = [e]"
  by (simp add: setProperty_def split: option.splits)

lemma distinct_foldl_setProperty:
  "distinct (map fst acc) \<Longrightarrow> distinct (map fst (foldl setProperty acc es))"
  by (induction es arbitrary: acc) (auto simp: distinct_setProperty)

lemma distinct_fromEntries: "distinct (map fst (fromEntries es))"
  by (simp add: fromEntries_def distinct_foldl_setProperty)

lemma map_of_foldl_setProperty_other:
  "k \<notin> fst ` set es \<Longrightarrow> map_of (foldl setProperty acc es) k = map_of acc k"
proof (induction es arbitrary: acc)
  case Nil
  then show ?case by simp
next
  case (Cons e es)
  obtain k' v where e: "e = (k', v)" by (cases e)
  with Cons show ?case by (simp add: map_of_setProperty)
qed

lemma map_of_fromEntries_last:
  assumes "k \<notin> fst ` set after"
  shows "map_of (fromEntries (before @ (k, v) # after)) k = Some v"
  using assms by (simp add: fromEntries_def map_of_foldl_setProperty_other map_of_setProperty)

lemma map_of_fromEntries_distinct:
  assumes "distinct (map fst es)" and "(k, v) \<in> set es"
  shows "map_of (fromEntries es) k = Some v"
proof -
  from assms(2) obtain before after where es: "es = before @ (k, v) # after"
    by (auto dest: split_list)
  with assms(1) have "k \<notin> fst ` set after" by auto
  then show ?thesis unfolding es by (rule map_of_fromEntries_last)
qed

lemma distinct_foldl_assignObject:
  "distinct (map fst acc) \<Longrightarrow> distinct (map fst (foldl assignObject acc es))"
  by (induction es arbitrary: acc) (auto simp: assignObject_def distinct_setProperty)

lemma map_of_foldl_assignObject_other:
  "k \<notin> fst ` set es \<Longrightarrow> map_of (foldl assignObject acc es) k = map_of acc k"
proof (induction es arbitrary: acc)
  case Nil
  then show ?case by simp
next
  case (Cons e es)
  obtain k' v where e: "e = (k', v)" by (cases e)
  with Cons show ?case by (simp add: assignObject_def map_of_setProperty)
qed

lemma map_of_foldl_assignObject_last:
  assumes "k \<notin> fst ` set after" and "k \<noteq> ''__proto__''"
  shows "map_of (foldl assignObject acc (before @ (k, v) # after)) k = Some v"
  using assms by (simp add: map_of_foldl_assignObject_other assignObject_def map_of_setProperty)

lemma map_of_assignProperty:
  assumes "k \<noteq> ''__proto__''"
  shows "map_of (fst (assignProperty acc (k', r))) k =
           (if k' = k then Some (fst r) else map_of (fst acc) k)"
proof -
  obtain props inh where acc: "acc = (props, inh)" by (cases acc)
  obtain v vi where r: "r = (v, vi)" by (cases r)
  show ?thesis
    using assms unfolding acc r
    by (cases v) (auto simp: map_of_setProperty)
qed

lemma map_of_foldl_assignProperty_other:
  assumes "k \<noteq> ''__proto__''"
  shows "k \<notin> fst ` set es \<Longrightarrow>
         map_of (fst (foldl assignProperty acc es)) k = map_of (fst acc) k"
proof (induction es arbitrary: acc)
  case Nil
  then show ?case by simp
next
  case (Cons e es)
  obtain k' r where e: "e = (k', r)" by (cases e)
  with Cons assms show ?case by (auto simp: map_of_assignProperty)
qed

lemma map_of_foldl_assignProperty_last:
  assumes "k \<noteq> ''__proto__''" and "k \<notin> fst ` set after"
  shows "map_of (fst (foldl assignProperty acc (before @ (k, r) # after))) k = Some (fst r)"
  using assms by (simp add: map_of_foldl_assignProperty_other map_of_assignProperty)

lemma assignProperty_first:
  "k \<noteq> ''__proto__'' \<Longrightarrow> assignProperty ([], True) (k, v, vi) = ([(k, v)], True)"
  by simp

text \<open>
  The example of a field in a sequence of fields is the example that the field gets on its
  own (as the one-element sequence that the composite branch passes), unless a later field
  of the same name overwrites it. The name \<^verbatim>\<open>__proto__\<close> is set apart: under it an assignment
  may create no property at all.
\<close>

lemma generateExampleValue_fields:
  "\<exists>V. (\<forall>cs. generateExampleValue (Suc fuel) (Some cs) (Some ds) =
             andThen (mapResult V cs)
               (\<lambda>assignments.
                  returns (case foldl assignProperty ([], True) assignments of
                             (props, inherits) \<Rightarrow> (JObject props, inherits)))) \<and>
       (\<forall>c y. V c = returns y \<longrightarrow> fst y = propertyKey (name c))"
  unfolding generateExampleValue.simps(3) Let_def option.case
  apply (rule exI)
  apply (rule conjI)
   apply (rule allI)
   apply (rule refl)
  apply (auto simp: andThen_eq_returns simp del: generateExampleValue.simps findItemDefinition.simps)
  done

lemma field_in_sequence:
  assumes key: "propertyKey (name c) \<noteq> ''__proto__''"
    and one: "generateExampleValue (Suc fuel) (Some [c]) (Some ds) =
                returns (JObject [(propertyKey (name c), v)], True)"
    and all: "generateExampleValue (Suc fuel) (Some (before @ c # after)) (Some ds) = returns out"
    and last: "\<forall>x \<in> set after. propertyKey (name x) \<noteq> propertyKey (name c)"
  shows "\<exists>props inherits. out = (JObject props, inherits) \<and>
           map_of props (propertyKey (name c)) = Some v"
proof -
  let ?key = "propertyKey (name c)"
  from generateExampleValue_fields[of fuel ds] obtain V
    where gen: "\<And>cs. generateExampleValue (Suc fuel) (Some cs) (Some ds) =
             andThen (mapResult V cs)
               (\<lambda>assignments.
                  returns (case foldl assignProperty ([], True) assignments of
                             (props, inherits) \<Rightarrow> (JObject props, inherits)))"
      and keys: "\<And>c y. V c = returns y \<Longrightarrow> fst y = propertyKey (name c)"
    by blast
  from one obtain y where y: "V c = returns y"
    and y1: "(case assignProperty ([], True) y of (props, inherits) \<Rightarrow> (JObject props, inherits)) =
               (JObject [(?key, v)], True)"
    unfolding gen by (cases "V c" rule: result_cases) auto
  obtain w wi where yw: "y = (?key, w, wi)" using keys[OF y] by (cases y) auto
  with y1 key have "w = v" by simp
  with y yw have Vc: "V c = returns (?key, v, wi)" by simp
  from all obtain es where es: "mapResult V (before @ c # after) = returns es"
    and out: "out = (case foldl assignProperty ([], True) es of
                       (props, inherits) \<Rightarrow> (JObject props, inherits))"
    unfolding gen by (auto simp: andThen_eq_returns)
  from mapResult_returnsD[OF es] Vc obtain esb esa
    where split: "es = esb @ (?key, v, wi) # esa"
      and esa: "list_all2 (\<lambda>x y. V x = returns y) after esa"
    by (auto simp: list_all2_append1 list_all2_Cons1)
  have "?key \<notin> fst ` set esa"
  proof
    assume "?key \<in> fst ` set esa"
    then obtain z where z: "z \<in> set esa" "fst z = ?key" by auto
    from list_all2_set2[OF esa z(1)] obtain x where x: "x \<in> set after" "V x = returns z"
      by auto
    with keys have "fst z = propertyKey (name x)" by simp
    with z x last show False by auto
  qed
  with key have "map_of (fst (foldl assignProperty ([], True) es)) ?key = Some v"
    unfolding split using map_of_foldl_assignProperty_last[of ?key esa "([], True)" esb "(v, wi)"]
    by simp
  with out show ?thesis by (cases "foldl assignProperty ([], True) es") auto
qed

section \<open>Evaluation of the examples\<close>

lemmas evaluation =
  truthy_def propertyKey_def fromEntries_def setProperty_def arrayIndex_def digitValue_def
  assignObject_def exampleFor_def declaredType_def orString_def toLowerCase_def lowerChar_def
  allowedExample_def allowedValuesOf_def hasAllowedValues_def firstText_def matchQuoted_def
  stripQuotes_def quote_def typeDef_def field_def inputOf_def
  andThen_def returns_def throws_def

section \<open>The properties of the specification\<close>

text \<open>
  Claim C1. A document with the one input \<open>Applicant\<close> of type \<open>Person\<close>, where \<open>Person\<close> has the
  fields \<open>name\<close> (no type reference) and \<open>age\<close> (type \<open>Number\<close>, whose definition has the base
  type \<open>number\<close>), yields the mapping \<^verbatim>\<open>{"Applicant": {"name": "example_string", "age": 0}}\<close>:
  with a bound of two or more on the depth of the calls, the upload returns, stores this
  schema, opens the modal and clears the validation errors, whatever the state was.
\<close>

theorem applicant_example:
  "handleFileUpload (Suc (Suc fuel)) s (Some applicantDocument) =
     Some \<lparr>jsonSchema =
             Some (JObject [(''Applicant'',
                     JObject [(''name'', JString ''example_string''), (''age'', JNumber 0)])]),
           modalOpen = True, validationErrors = []\<rparr>"
  by (simp add: handleFileUpload_def processDocument_def schema_def inputDataMap_def
      applicantDocument_def personCatalog_def evaluation)

text \<open>
  Claim C2. Each field name of a composite maps to the example of that field, with no
  extra wrapping at any depth. The code does not do this below the first level: for a
  field of a composite type, \<^verbatim>\<open>generateExampleValue\<close> is called on a one-element sequence for
  each field of that type and its result, itself a mapping \<^verbatim>\<open>{ field: example }\<close>, is stored
  under the field name. The document \<open>customerDocument\<close> yields
  \<^verbatim>\<open>{"Customer": {"address": {"street": {"street": "example_string"}, "city": {"city":
  "example_string"}}}}\<close>.
\<close>

theorem nested_fields_wrapped:
  "processDocument (Suc (Suc (Suc fuel))) (Some customerDocument) =
     returns (JObject [(''Customer'',
       JObject [(''address'',
         JObject [(''street'', JObject [(''street'', JString ''example_string'')]),
                  (''city'', JObject [(''city'', JString ''example_string'')])])])])"
  by (simp add: processDocument_def schema_def inputDataMap_def customerDocument_def evaluation)

text \<open>
  Claim C3. A field or an input whose type reference matches no type definition gets the
  example chosen from the text of the reference (\<^verbatim>\<open>"example_currency"\<close> for \<open>Currency\<close>). The
  code does not do this: where the reference is present and not defined, the value is
  \<^verbatim>\<open>null\<close>, for the field \<open>amount\<close> of \<open>Order\<close> as for the input \<open>Fee\<close>. The comparison with
  \<^verbatim>\<open>'number'\<close> and \<^verbatim>\<open>'boolean'\<close> in that branch is reached only when the reference is missing.
\<close>

theorem undefined_type_null:
  "processDocument (Suc (Suc (Suc fuel))) (Some orderDocument) =
     returns (JObject [(''Order'', JObject [(''amount'', JNull)]), (''Fee'', JNull)])"
  by (simp add: processDocument_def schema_def inputDataMap_def orderDocument_def evaluation)

text \<open>
  Claim C4, as stated: when the type definitions contain a cycle, type resolution still
  terminates, the cyclic branch being cut to a placeholder. The lookup of a type that
  refers to itself returns for no bound on the depth of the calls: the recursion goes on
  for as long as the call stack allows, and no placeholder is ever produced.
\<close>

theorem self_reference_counterexample:
  "\<not> (\<exists>fuel r. findItemDefinition fuel (Some nodeCatalog) (Some ''Node'') = Some r)"
proof -
  have "cyclic nodeCatalog [Some ''Node'']"
    by (simp add: cyclic_def nodeCatalog_def typeDef_def field_def truthy_def)
  then have "findItemDefinition fuel (Some nodeCatalog) (Some ''Node'') = None" for fuel
    by (rule cyclic_diverges) simp
  then show ?thesis by simp
qed

text \<open>
  Claim C4, amended. Type resolution has no cycle guard. When the type definitions are
  acyclic (a rank decreases along every resolved reference), the lookup of any type
  reference returns, with the same result for every sufficiently large bound on the depth
  of the calls. When the type reference lies on a cycle of definitions, directly or
  through other definitions, the lookup never returns: no branch is cut.
\<close>

theorem resolution_without_cycle_guard:
  "(ranked rank ds \<longrightarrow>
      (\<exists>N r. \<forall>fuel\<ge>N. findItemDefinition fuel (Some ds) tr = returns r)) \<and>
   (cyclic ds names \<and> tr \<in> set names \<longrightarrow>
      (\<forall>fuel. findItemDefinition fuel (Some ds) tr = None))"
proof (intro conjI impI allI)
  assume r: "ranked rank ds"
  show "\<exists>N r. \<forall>fuel\<ge>N. findItemDefinition fuel (Some ds) tr = returns r"
  proof (cases "find (\<lambda>d. id_name d = tr) ds")
    case None
    then have "findItemDefinition (Suc 0) (Some ds) tr = returns None" by simp
    then have "\<forall>fuel\<ge>Suc 0. findItemDefinition fuel (Some ds) tr = returns None"
      unfolding returns_def by (blast intro: findItemDefinition_le)
    then show ?thesis by blast
  next
    case (Some d)
    from ranked_returns[OF r Some order_refl] obtain cs
      where "findItemDefinition (rank d + 2) (Some ds) tr = returns (Some cs)" ..
    then have "\<forall>fuel\<ge>rank d + 2. findItemDefinition fuel (Some ds) tr = returns (Some cs)"
      unfolding returns_def by (blast intro: findItemDefinition_le)
    then show ?thesis by blast
  qed
next
  fix fuel
  assume "cyclic ds names \<and> tr \<in> set names"
  then show "findItemDefinition fuel (Some ds) tr = None"
    by (auto intro: cyclic_diverges)
qed

theorem resolution_without_cycle_guard_witness:
  "ranked personRank personCatalog \<and>
   (\<exists>N r. \<forall>fuel\<ge>N. findItemDefinition fuel (Some personCatalog) (Some ''Person'') = returns r) \<and>
   cyclic loopCatalog [Some ''Employee'', Some ''Unit''] \<and>
   (\<forall>fuel. findItemDefinition fuel (Some loopCatalog) (Some ''Employee'') = None)"
proof -
  have r: "ranked personRank personCatalog"
    by (simp add: ranked_def personRank_def personCatalog_def typeDef_def field_def truthy_def)
  have c: "cyclic loopCatalog [Some ''Employee'', Some ''Unit'']"
    by (simp add: cyclic_def loopCatalog_def typeDef_def field_def truthy_def)
  have m: "Some ''Employee'' \<in> set [Some ''Employee'', Some ''Unit'']" by simp
  from resolution_without_cycle_guard[where rank = personRank and ds = personCatalog
      and tr = "Some ''Person''"] r
  have 1: "\<exists>N r. \<forall>fuel\<ge>N. findItemDefinition fuel (Some personCatalog) (Some ''Person'') = returns r"
    by blast
  from resolution_without_cycle_guard[where ds = loopCatalog
      and names = "[Some ''Employee'', Some ''Unit'']" and tr = "Some ''Employee''"] c m
  have 2: "\<forall>fuel. findItemDefinition fuel (Some loopCatalog) (Some ''Employee'') = None"
    by blast
  from r 1 c 2 show ?thesis by blast
qed

text \<open>
  Claim C5, as stated: the base type of a primitive without allowed values is classified
  without regard to case, so that any casing of \<open>number\<close> yields \<open>0\<close>. For a field of the type
  \<open>Age\<close>, whose base type is written \<open>Number\<close>, the code yields the string
  \<^verbatim>\<open>"example_number"\<close>, not \<open>0\<close>.
\<close>

theorem base_type_case_counterexample:
  "generateExampleValue 1 (Some [Component (Some ''age'') (Some ''Age'') (Some [])])
     (Some ageCatalog) =
     returns (JObject [(''age'', JString ''example_number'')], True) \<and>
   generateExampleValue 1 (Some [Component (Some ''age'') (Some ''Age'') (Some [])])
     (Some ageCatalog) \<noteq>
     returns (JObject [(''age'', JNumber 0)], True)"
  by (simp add: ageCatalog_def evaluation)

text \<open>
  Claim C5, amended. For a field, of a name other than \<^verbatim>\<open>__proto__\<close>, whose type reference finds
  a definition without components and without allowed values, the base type is the text
  of the definition's \<^verbatim>\<open>dmn:typeRef\<close> if that is not empty, else its attribute \<^verbatim>\<open>_typeRef\<close>, else
  \<open>string\<close>. It is compared exactly, case included: \<open>number\<close> yields \<open>0\<close>, \<open>boolean\<close> yields \<open>true\<close>,
  and any other ASCII text \<open>t\<close>, other casings of these two words included, yields
  \<^verbatim>\<open>"example_"\<close> followed by \<open>t\<close> in lower case. This is the value of the field on its own and
  in every sequence of fields in which no later field has its name.
\<close>

theorem base_type_classification:
  assumes "truthy (typeRef c)"
    and "find (\<lambda>d. id_name d = typeRef c) ds = Some d"
    and "id_itemComponent d = []"
    and "\<not> hasAllowedValues d"
    and "base = (if truthy (id_typeRef d) then id_typeRef d else id_attr_typeRef d)"
    and "t = (case base of None \<Rightarrow> ''string'' | Some b \<Rightarrow> b)"
    and "ascii t"
    and "propertyKey (name c) \<noteq> ''__proto__''"
    and "v = (if t = ''number'' then JNumber 0
              else if t = ''boolean'' then JBool True
              else JString (''example_'' @ toLowerCase t))"
  shows "generateExampleValue (Suc fuel) (Some [c]) (Some ds) =
           returns (JObject [(propertyKey (name c), v)], True) \<and>
         (\<forall>before after out.
            generateExampleValue (Suc fuel) (Some (before @ c # after)) (Some ds) = returns out \<and>
            (\<forall>x \<in> set after. propertyKey (name x) \<noteq> propertyKey (name c)) \<longrightarrow>
            (\<exists>props inherits. out = (JObject props, inherits) \<and>
               map_of props (propertyKey (name c)) = Some v))"
proof -
  have one: "generateExampleValue (Suc fuel) (Some [c]) (Some ds) =
               returns (JObject [(propertyKey (name c), v)], True)"
    using assms(1-6,8,9)
    by (simp add: exampleFor_def declaredType_def orString_def)
  then show ?thesis using assms(8) by (blast intro: field_in_sequence)
qed

theorem base_type_classification_witness:
  "ascii ''boolean'' \<and>
   generateExampleValue (Suc 0) (Some [Component (Some ''active'') (Some ''Flag'') (Some [])])
     (Some ageCatalog) =
   returns (JObject [(''active'', JBool True)], True)"
proof -
  let ?c = "Component (Some ''active'') (Some ''Flag'') (Some [])"
  let ?d = "typeDef ''Flag'' [] (Some ''boolean'')"
  have a: "ascii ''boolean''" by (simp add: ascii_def)
  have "generateExampleValue (Suc 0) (Some [?c]) (Some ageCatalog) =
           returns (JObject [(propertyKey (name ?c), JBool True)], True) \<and>
         (\<forall>before after out.
            generateExampleValue (Suc 0) (Some (before @ ?c # after)) (Some ageCatalog) = returns out \<and>
            (\<forall>x \<in> set after. propertyKey (name x) \<noteq> propertyKey (name ?c)) \<longrightarrow>
            (\<exists>props inherits. out = (JObject props, inherits) \<and>
               map_of props (propertyKey (name ?c)) = Some (JBool True)))"
  proof (rule base_type_classification)
    show "truthy (typeRef ?c)" by (simp add: truthy_def)
    show "find (\<lambda>d. id_name d = typeRef ?c) ageCatalog = Some ?d"
      by (simp add: ageCatalog_def typeDef_def)
    show "id_itemComponent ?d = []" by (simp add: typeDef_def)
    show "\<not> hasAllowedValues ?d" by (simp add: typeDef_def hasAllowedValues_def)
    show "Some ''boolean'' = (if truthy (id_typeRef ?d) then id_typeRef ?d else id_attr_typeRef ?d)"
      by (simp add: typeDef_def truthy_def)
    show "''boolean'' = (case Some ''boolean'' of None \<Rightarrow> ''string'' | Some b \<Rightarrow> b)" by simp
    show "ascii ''boolean''" by (rule a)
    show "propertyKey (name ?c) \<noteq> ''__proto__''" by (simp add: propertyKey_def)
    show "JBool True = (if ''boolean'' = ''number'' then JNumber 0
              else if ''boolean'' = ''boolean'' then JBool True
              else JString (''example_'' @ toLowerCase ''boolean''))" by simp
  qed
  with a show ?thesis by (simp add: propertyKey_def)
qed







text \<open>
  Claim C8. The lookup of a type never throws, also when the document declares no type
  definition at all. The code does not do this: with a sequence of type definitions,
  present or empty, the lookup throws nothing, but with \<^verbatim>\<open>definitions['dmn:itemDefinition']\<close>
  missing, \<^verbatim>\<open>itemDefinitions.find\<close> throws a TypeError, and the upload of a document with an
  input and no type definition ends in the error \<^verbatim>\<open>Processing error\<close>.
\<close>

theorem missing_catalog_throws:
  "findItemDefinition fuel (Some ds) tr \<noteq> throws e \<and>
   findItemDefinition (Suc fuel) None tr = throws TypeError \<and>
   handleFileUpload (Suc fuel) s (Some bareDocument) =
     Some (s\<lparr>validationErrors := [\<lparr>message = ''Processing error'', details = TypeError\<rparr>]\<rparr>)"
  by (simp add: findItemDefinition_no_throw)
     (simp add: handleFileUpload_def processDocument_def schema_def inputDataMap_def
      bareDocument_def evaluation)

text \<open>
  Claim C10. For an input, of a name other than \<^verbatim>\<open>__proto__\<close>, whose type reference finds a type
  definition without components, the lookup returns the empty sequence of components and
  synthesis turns it into the empty mapping, so that whenever the extraction returns, the
  value under the name of that input is \<^verbatim>\<open>{}\<close> and not a scalar. (When a later input has the
  same name, the value under that name is the later input's; an input named \<^verbatim>\<open>__proto__\<close>
  leaves no entry.)
\<close>

theorem componentless_input_empty:
  assumes "dmn_inputData defs = Some (before @ input # after)"
    and "\<forall>j \<in> set after. propertyKey (in_name j) \<noteq> propertyKey (in_name input)"
    and "propertyKey (in_name input) \<noteq> ''__proto__''"
    and "in_variable input = Some var"
    and "dmn_itemDefinition defs = Some ds"
    and "find (\<lambda>d. id_name d = var_typeRef var) ds = Some d"
    and "id_itemComponent d = []"
  shows "findItemDefinition (Suc n) (Some ds) (var_typeRef var) = returns (Some []) \<and>
         generateExampleValue (Suc n) (Some []) (Some ds) = returns (JObject [], True) \<and>
         (\<forall>fuel out. processDocument fuel (Some defs) = returns out \<longrightarrow>
            (\<exists>props. out = JObject props \<and>
               map_of props (propertyKey (in_name input)) = Some (JObject [])))"
proof (intro conjI allI impI)
  show "findItemDefinition (Suc n) (Some ds) (var_typeRef var) = returns (Some [])"
    using assms(6,7) by simp
  show "generateExampleValue (Suc n) (Some []) (Some ds) = returns (JObject [], True)"
    by simp
next
  fix fuel out
  assume run: "processDocument fuel (Some defs) = returns out"
  let ?key = "propertyKey (in_name input)"
  let ?F = "\<lambda>input.
             case in_variable input of
               None \<Rightarrow> throws TypeError
             | Some var \<Rightarrow>
                 andThen (findItemDefinition fuel (Some ds) (var_typeRef var))
                   (\<lambda>comps. returns
                      (propertyKey (in_name input),
                       \<lparr>def_typeRef = var_typeRef var, def_components = comps,
                        def_namespace = in_id input\<rparr>))"
  let ?G = "\<lambda>(key, def). andThen
                (generateExampleValue fuel (def_components def) (Some ds))
                (\<lambda>r. returns (key, fst r))"
  from run have "schema fuel defs = returns out" by (simp add: processDocument_def)
  then obtain m entries where m: "inputDataMap fuel defs = returns m"
    and entries: "mapResult ?G m = returns entries"
    and out: "out = JObject (fromEntries entries)"
    unfolding schema_def assms(5) by (auto simp: andThen_eq_returns)
  from m obtain es where es: "mapResult ?F (before @ input # after) = returns es"
    and m_eq: "m = foldl assignObject [] es"
    unfolding inputDataMap_def assms(1,5) by (auto simp: andThen_eq_returns)
  from mapResult_returnsD[OF es] obtain esb e esa
    where split: "es = esb @ e # esa" and e: "?F input = returns e"
      and esa: "list_all2 (\<lambda>x y. ?F x = returns y) after esa"
    by (auto simp: list_all2_append1 list_all2_Cons1)
  from e assms(4) obtain comps
    where comps: "findItemDefinition fuel (Some ds) (var_typeRef var) = returns comps"
      and e_eq: "e = (?key, \<lparr>def_typeRef = var_typeRef var, def_components = comps,
                             def_namespace = in_id input\<rparr>)"
    by (auto simp: andThen_eq_returns)
  from comps obtain k where fuel: "fuel = Suc k" by (cases fuel) auto
  with comps assms(6,7) have comps_eq: "comps = Some []" by simp
  have notin: "?key \<notin> fst ` set esa"
  proof
    assume "?key \<in> fst ` set esa"
    then obtain y where y: "y \<in> set esa" "fst y = ?key" by auto
    from list_all2_set2[OF esa y(1)] obtain x where x: "x \<in> set after" "?F x = returns y"
      by auto
    then have "fst y = propertyKey (in_name x)"
      by (auto simp: andThen_eq_returns split: option.splits)
    with y x assms(2) show False by auto
  qed
  have "map_of m ?key = Some (snd e)"
    unfolding m_eq split e_eq snd_conv
    by (rule map_of_foldl_assignObject_last[OF notin assms(3)])
  then have mem: "(?key, snd e) \<in> set m" by (rule map_of_SomeD)
  have all2: "list_all2 (\<lambda>x y. ?G x = returns y) m entries"
    using entries by (rule mapResult_returnsD)
  then have "list_all2 (\<lambda>x y. fst y = fst x) m entries"
    by (rule list_all2_mono) (auto simp: andThen_eq_returns)
  then have "map fst entries = map fst m" by (rule list_all2_map_fst)
  then have dist: "distinct (map fst entries)"
    by (simp add: m_eq distinct_foldl_assignObject)
  from list_all2_set1[OF all2 mem] obtain y
    where y: "y \<in> set entries" "?G (?key, snd e) = returns y"
    by auto
  from y(2) have "y = (?key, JObject [])"
    using e_eq comps_eq fuel by auto
  with y(1) dist have "map_of (fromEntries entries) ?key = Some (JObject [])"
    by (simp add: map_of_fromEntries_distinct)
  then show "\<exists>props. out = JObject props \<and> map_of props ?key = Some (JObject [])"
    using out by simp
qed

text \<open>The input \<open>Limit\<close> of the type \<open>Amount\<close>, a number without components: the output is
  \<^verbatim>\<open>{"Limit": {}}\<close>.\<close>

theorem componentless_input_empty_witness:
  "processDocument (Suc (Suc 0)) (Some limitDocument) =
     returns (JObject [(''Limit'', JObject [])]) \<and>
   map_of [(''Limit'', JObject [])] ''Limit'' = Some (JObject [])"
proof -
  let ?input = "inputOf ''Limit'' ''Amount''"
  let ?ds = "[typeDef ''Amount'' [] (Some ''number'')]"
  have run: "processDocument (Suc (Suc 0)) (Some limitDocument) =
               returns (JObject [(''Limit'', JObject [])])"
    by (simp add: processDocument_def schema_def inputDataMap_def limitDocument_def evaluation)
  have "findItemDefinition (Suc 0) (Some ?ds) (var_typeRef \<lparr>var_typeRef = Some ''Amount''\<rparr>) =
          returns (Some []) \<and>
        generateExampleValue (Suc 0) (Some []) (Some ?ds) = returns (JObject [], True) \<and>
        (\<forall>fuel out. processDocument fuel (Some limitDocument) = returns out \<longrightarrow>
           (\<exists>props. out = JObject props \<and>
              map_of props (propertyKey (in_name ?input)) = Some (JObject [])))"
  proof (rule componentless_input_empty)
    show "dmn_inputData limitDocument = Some ([] @ ?input # [])" by (simp add: limitDocument_def)
    show "\<forall>j \<in> set []. propertyKey (in_name j) \<noteq> propertyKey (in_name ?input)" by simp
    show "propertyKey (in_name ?input) \<noteq> ''__proto__''" by (simp add: inputOf_def propertyKey_def)
    show "in_variable ?input = Some \<lparr>var_typeRef = Some ''Amount''\<rparr>" by (simp add: inputOf_def)
    show "dmn_itemDefinition limitDocument = Some ?ds" by (simp add: limitDocument_def)
    show "find (\<lambda>d. id_name d = var_typeRef \<lparr>var_typeRef = Some ''Amount''\<rparr>) ?ds = Some (hd ?ds)"
      by (simp add: typeDef_def)
    show "id_itemComponent (hd ?ds) = []" by (simp add: typeDef_def)
  qed
  with run show ?thesis by (simp add: inputOf_def propertyKey_def)
qed

end
